theory Spec2Isabelle
  imports Main "HOL-Library.Word" "HOL-Library.Signed_Division"
begin

unbundle bit_operations_syntax

section \<open>The pointer-bumping allocator of \<open>pb-alloc.c\<close>\<close>

text \<open>
  The allocator is embedded for an LP64 little-endian target (the one \<open>mmap\<close> and
  \<open>sysconf\<close> of the source are written for): \<open>intptr_t\<close>, \<open>size_t\<close> and \<open>void*\<close> are
  64-bit words, \<open>sizeof(header_s)\<close> is 8. Unsigned arithmetic wraps; a value of type
  \<open>intptr_t\<close> is compared as a two's complement number. The process's address space is a
  function from addresses to bytes; page protection is not part of the model, so a read
  or write of an unmapped address is an ordinary read or write here.
\<close>

type_synonym addr = "64 word"
type_synonym byte = "8 word"
type_synonym mem = "addr \<Rightarrow> byte"

subsection \<open>Constants\<close>

definition DBL_WORD_SIZE :: addr where
  "DBL_WORD_SIZE = 16"

text \<open>\<open>GB(2)\<close>, that is \<open>(size_t)2 * 1024 * 1024 * 1024\<close>.\<close>

definition HEAP_SIZE :: addr where
  "HEAP_SIZE = 2 * 1024 * 1024 * 1024"

text \<open>\<open>sizeof(header_s)\<close>: the header is one \<open>size_t\<close>.\<close>

definition header_size :: addr where
  "header_size = 8"

definition NULL :: addr where
  "NULL = 0"

text \<open>\<open>MAP_FAILED\<close> is \<open>(void* )-1\<close>.\<close>

definition MAP_FAILED :: addr where
  "MAP_FAILED = - 1"

subsection \<open>The globals and the memory\<close>

record heap_state =
  free_addr :: addr
  start_addr :: addr
  end_addr :: addr
  memory :: mem

text \<open>\<open>ERROR\<close> calls \<open>safe_error\<close>, which prints and ends the process with \<open>exit(1)\<close>.\<close>

datatype fatal = MmapFailed

text \<open>C's \<open>%\<close> on two \<open>intptr_t\<close> values: the remainder of the division that truncates
  towards zero, so it has the sign of the dividend.\<close>

definition c_srem :: "addr \<Rightarrow> addr \<Rightarrow> addr" where
  "c_srem a b = word_of_int (sint a smod sint b)"

text \<open>The \<open>size_t\<close> field of a header, as its eight bytes in memory (least significant
  byte at the lowest address).\<close>

definition size_byte :: "addr \<Rightarrow> nat \<Rightarrow> byte" where
  "size_byte v i = ucast (drop_bit (8 * i) v)"

definition store_size :: "mem \<Rightarrow> addr \<Rightarrow> addr \<Rightarrow> mem" where
  "store_size m a v = (\<lambda>x. if x - a < 8 then size_byte v (unat (x - a)) else m x)"

definition load_size :: "mem \<Rightarrow> addr \<Rightarrow> addr" where
  "load_size m a =
     ucast (m a) OR push_bit 8 (ucast (m (a + 1))) OR push_bit 16 (ucast (m (a + 2)))
     OR push_bit 24 (ucast (m (a + 3))) OR push_bit 32 (ucast (m (a + 4)))
     OR push_bit 40 (ucast (m (a + 5))) OR push_bit 48 (ucast (m (a + 6)))
     OR push_bit 56 (ucast (m (a + 7)))"

text \<open>\<open>memset(p, c, n)\<close> and \<open>memcpy(dst, src, n)\<close>. The copy reads the memory as it was
  before the call; C leaves a copy between overlapping ranges undefined.\<close>

definition memset :: "mem \<Rightarrow> addr \<Rightarrow> byte \<Rightarrow> addr \<Rightarrow> mem" where
  "memset m p c n = (\<lambda>x. if x - p < n then c else m x)"

definition memcpy :: "mem \<Rightarrow> addr \<Rightarrow> addr \<Rightarrow> addr \<Rightarrow> mem" where
  "memcpy m dst src n = (\<lambda>x. if x - dst < n then m (src + (x - dst)) else m x)"

subsection \<open>The entry points\<close>

text \<open>The first argument of \<open>init\<close>, and of every routine that calls it, is the address
  that \<open>mmap\<close> gives back if it is called.\<close>

definition init :: "addr \<Rightarrow> heap_state \<Rightarrow> fatal + heap_state" where
  "init heap s =
     (if start_addr s = 0 then
        (if heap = MAP_FAILED then Inl MmapFailed
         else Inr (s\<lparr>start_addr := heap, end_addr := heap + HEAP_SIZE, free_addr := heap\<rparr>))
      else Inr s)"

definition padding_of :: "addr \<Rightarrow> addr" where
  "padding_of fa = (header_size + DBL_WORD_SIZE - c_srem fa DBL_WORD_SIZE) mod DBL_WORD_SIZE"

definition malloc :: "addr \<Rightarrow> addr \<Rightarrow> heap_state \<Rightarrow> fatal + (addr \<times> heap_state)" where
  "malloc heap sz s =
     (case init heap s of
        Inl e \<Rightarrow> Inl e
      | Inr s1 \<Rightarrow>
          let padding = padding_of (free_addr s1);
              s2 = s1\<lparr>free_addr := free_addr s1 + padding\<rparr>
          in if sz = 0 then Inr (NULL, s2)
             else
               let total_size = sz + header_size;
                   header_ptr = free_addr s2;
                   block_ptr = free_addr s2 + header_size;
                   new_free_addr = free_addr s2 + total_size
               in if end_addr s2 <s new_free_addr then Inr (NULL, s2)
                  else Inr (block_ptr,
                            s2\<lparr>free_addr := new_free_addr,
                               memory := store_size (memory s2) header_ptr sz\<rparr>))"

text \<open>\<open>free\<close> only emits a debugging trace, and that only in a debug build.\<close>

definition free :: "addr \<Rightarrow> heap_state \<Rightarrow> heap_state" where
  "free ptr s = s"

definition calloc :: "addr \<Rightarrow> addr \<Rightarrow> addr \<Rightarrow> heap_state \<Rightarrow> fatal + (addr \<times> heap_state)" where
  "calloc heap nmemb sz s =
     (let block_size = nmemb * sz
      in case malloc heap block_size s of
           Inl e \<Rightarrow> Inl e
         | Inr (block_ptr, s1) \<Rightarrow>
             if block_ptr \<noteq> NULL
             then Inr (block_ptr, s1\<lparr>memory := memset (memory s1) block_ptr 0 block_size\<rparr>)
             else Inr (block_ptr, s1))"

definition realloc :: "addr \<Rightarrow> addr \<Rightarrow> addr \<Rightarrow> heap_state \<Rightarrow> fatal + (addr \<times> heap_state)" where
  "realloc heap ptr sz s =
     (if ptr = NULL then malloc heap sz s
      else if sz = 0 then Inr (NULL, free ptr s)
      else
        let old_size = load_size (memory s) (ptr - header_size)
        in if sz \<le> old_size then Inr (ptr, s)
           else
             case malloc heap sz s of
               Inl e \<Rightarrow> Inl e
             | Inr (new_ptr, s1) \<Rightarrow>
                 if new_ptr \<noteq> NULL
                 then Inr (new_ptr,
                           free ptr (s1\<lparr>memory := memcpy (memory s1) new_ptr ptr old_size\<rparr>))
                 else Inr (new_ptr, s1))"

subsection \<open>Calls and sequences of calls\<close>

datatype call = Malloc addr | Free addr | Calloc addr addr | Realloc addr addr

text \<open>One call of an entry point, keeping only the globals and the memory it leaves.\<close>

fun run_call :: "addr \<Rightarrow> call \<Rightarrow> heap_state \<Rightarrow> fatal + heap_state" where
  "run_call heap (Malloc sz) s = map_sum id snd (malloc heap sz s)"
| "run_call heap (Free ptr) s = Inr (free ptr s)"
| "run_call heap (Calloc nmemb sz) s = map_sum id snd (calloc heap nmemb sz s)"
| "run_call heap (Realloc ptr sz) s = map_sum id snd (realloc heap ptr sz s)"

fun run_calls :: "addr \<Rightarrow> call list \<Rightarrow> heap_state \<Rightarrow> fatal + heap_state" where
  "run_calls heap [] s = Inr s"
| "run_calls heap (c # cs) s =
     (case run_call heap c s of Inl e \<Rightarrow> Inl e | Inr s' \<Rightarrow> run_calls heap cs s')"

text \<open>The size that a call hands to \<open>malloc\<close>.\<close>

fun requested :: "call \<Rightarrow> addr" where
  "requested (Malloc sz) = sz"
| "requested (Free ptr) = 0"
| "requested (Calloc nmemb sz) = nmemb * sz"
| "requested (Realloc ptr sz) = sz"

text \<open>Whether a call reaches \<open>init\<close>: \<open>malloc\<close> and \<open>calloc\<close> always do, \<open>realloc\<close>
  only on the two paths that call \<open>malloc\<close>, \<open>free\<close> never.\<close>

fun reaches_init :: "heap_state \<Rightarrow> call \<Rightarrow> bool" where
  "reaches_init s (Malloc sz) = True"
| "reaches_init s (Free ptr) = False"
| "reaches_init s (Calloc nmemb sz) = True"
| "reaches_init s (Realloc ptr sz) =
     (ptr = NULL \<or> (sz \<noteq> 0 \<and> load_size (memory s) (ptr - header_size) < sz))"

text \<open>A sequence of \<open>malloc\<close> calls, with the pointers they return.\<close>

fun malloc_seq :: "addr \<Rightarrow> addr list \<Rightarrow> heap_state \<Rightarrow> fatal + (addr list \<times> heap_state)" where
  "malloc_seq heap [] s = Inr ([], s)"
| "malloc_seq heap (sz # szs) s =
     (case malloc heap sz s of
        Inl e \<Rightarrow> Inl e
      | Inr (p, s') \<Rightarrow>
          (case malloc_seq heap szs s' of
             Inl e \<Rightarrow> Inl e
           | Inr (ps, s'') \<Rightarrow> Inr (p # ps, s'')))"

subsection \<open>States\<close>

text \<open>The state of a process that has not called the allocator yet: the three globals
  are 0. The memory of \<open>initial_state\<close> is all zero bytes.\<close>

definition fresh :: "heap_state \<Rightarrow> bool" where
  "fresh s \<longleftrightarrow> free_addr s = 0 \<and> start_addr s = 0 \<and> end_addr s = 0"

definition initial_state :: heap_state where
  "initial_state = \<lparr>free_addr = 0, start_addr = 0, end_addr = 0, memory = (\<lambda>x. 0)\<rparr>"

definition initialized :: "heap_state \<Rightarrow> bool" where
  "initialized s \<longleftrightarrow> start_addr s \<noteq> 0"

text \<open>The invariant of the spec: \<open>start \<le> cursor \<le> end\<close>, on the \<open>intptr_t\<close> values.\<close>

definition cursor_in_region :: "heap_state \<Rightarrow> bool" where
  "cursor_in_region s \<longleftrightarrow>
     sint (start_addr s) \<le> sint (free_addr s) \<and> sint (free_addr s) \<le> sint (end_addr s)"

text \<open>What \<open>mmap\<close> returns on success: a user-space address, aligned (to a page, of which
  only the double-word alignment is used here).\<close>

definition mmap_ok :: "addr \<Rightarrow> bool" where
  "mmap_ok heap \<longleftrightarrow> 0 < uint heap \<and> uint heap < 2 ^ 47 \<and> uint heap mod 16 = 0"

text \<open>An initialized region whose cursor is at most the padding of one call past the
  end.\<close>

definition region_ok :: "heap_state \<Rightarrow> bool" where
  "region_ok s \<longleftrightarrow>
     mmap_ok (start_addr s) \<and> end_addr s = start_addr s + HEAP_SIZE \<and>
     uint (start_addr s) \<le> uint (free_addr s) \<and>
     uint (free_addr s) \<le> uint (end_addr s) + 8"

text \<open>A block that lies below the cursor, with the size its header stores.\<close>

definition block_below_cursor :: "heap_state \<Rightarrow> addr \<Rightarrow> addr \<Rightarrow> bool" where
  "block_below_cursor s ptr old \<longleftrightarrow>
     ptr \<noteq> NULL \<and> load_size (memory s) (ptr - header_size) = old \<and>
     uint ptr + uint old \<le> uint (free_addr s)"

text \<open>The state after \<open>malloc(24)\<close> in a process that had not used the allocator and
  whose \<open>mmap\<close> returned \<open>0x7f0000000000\<close>; the block is at \<open>0x7f0000000010\<close>.\<close>

definition example_state :: heap_state where
  "example_state =
     \<lparr>free_addr = 0x7f0000000028, start_addr = 0x7f0000000000, end_addr = 0x7f0080000000,
      memory = store_size (\<lambda>x. 0) 0x7f0000000008 24\<rparr>"

text \<open>The state after \<open>malloc(16)\<close> and \<open>malloc((size_t)-40)\<close> in such a process: the second
  request makes \<open>size + sizeof(header_s)\<close> wrap to \<open>-32\<close>, and the cursor is back at the
  header of the first block, \<open>0x7f0000000008\<close>.\<close>

definition wrapped_state :: heap_state where
  "wrapped_state =
     \<lparr>free_addr = 0x7f0000000008, start_addr = 0x7f0000000000, end_addr = 0x7f0080000000,
      memory = store_size (store_size (\<lambda>x. 0) 0x7f0000000008 16) 0x7f0000000028 (- 40)\<rparr>"

section \<open>Headers in memory\<close>

lemma store_size_bytes:
  "store_size m a v a = size_byte v 0"
  "store_size m a v (a + 1) = size_byte v 1"
  "store_size m a v (a + 2) = size_byte v 2"
  "store_size m a v (a + 3) = size_byte v 3"
  "store_size m a v (a + 4) = size_byte v 4"
  "store_size m a v (a + 5) = size_byte v 5"
  "store_size m a v (a + 6) = size_byte v 6"
  "store_size m a v (a + 7) = size_byte v 7"
  by (simp_all add: store_size_def)

lemma bit_size_byte:
  "bit (push_bit k (ucast (size_byte v i) :: addr)) n \<longleftrightarrow>
     k \<le> n \<and> n < k + 8 \<and> n < 64 \<and> bit v (8 * i + (n - k))"
  by (auto simp: size_byte_def bit_simps)

lemma bit_size_byte0:
  "bit (ucast (size_byte v 0) :: addr) n \<longleftrightarrow> n < 8 \<and> bit v n"
  by (auto simp: size_byte_def bit_simps)

text \<open>Reading a header back gives the size that was stored.\<close>

lemma load_store_size: "load_size (store_size m a v) a = v"
  unfolding load_size_def store_size_bytes
proof (rule bit_eqI)
  fix n :: nat
  assume "possible_bit TYPE(addr) n"
  then have n: "n < 64" by (simp add: possible_bit_word)
  then consider "n < 8" | "8 \<le> n" "n < 16" | "16 \<le> n" "n < 24" | "24 \<le> n" "n < 32"
    | "32 \<le> n" "n < 40" | "40 \<le> n" "n < 48" | "48 \<le> n" "n < 56" | "56 \<le> n" "n < 64"
    by linarith
  then show "bit (ucast (size_byte v 0) OR
          push_bit 8 (ucast (size_byte v 1)) OR
          push_bit 16 (ucast (size_byte v 2)) OR
          push_bit 24 (ucast (size_byte v 3)) OR
          push_bit 32 (ucast (size_byte v 4)) OR
          push_bit 40 (ucast (size_byte v 5)) OR
          push_bit 48 (ucast (size_byte v 6)) OR
          push_bit 56 (ucast (size_byte v 7)) :: addr) n = bit v n"
    by cases (simp_all add: bit_or_iff bit_size_byte bit_size_byte0)
qed

lemma store_size_other: "\<not> x - a < 8 \<Longrightarrow> store_size m a v x = m x"
  by (simp add: store_size_def)

section \<open>The alignment padding\<close>

lemma uint_mod16_add: "uint (x + y :: addr) mod 16 = (uint x + uint y) mod 16"
proof -
  have "(16::int) dvd 2 ^ 64" by simp
  then show ?thesis
    by (simp add: uint_word_ariths mod_mod_cancel)
qed

lemma uint_mod16_diff: "uint (x - y :: addr) mod 16 = (uint x - uint y) mod 16"
proof -
  have "(16::int) dvd 2 ^ 64" by simp
  then show ?thesis
    by (simp add: uint_word_ariths mod_mod_cancel)
qed

lemma uint_mod16_of_int: "uint (word_of_int k :: addr) mod 16 = k mod 16"
proof -
  have "(16::int) dvd 2 ^ 64" by simp
  then show ?thesis
    by (simp add: uint_word_of_int mod_mod_cancel)
qed

lemma sint_mod16: "sint (a :: addr) mod 16 = uint a mod 16"
  using uint_mod16_of_int [of "sint a"] by simp

lemma smod16_mod16: "(k smod 16) mod 16 = k mod (16::int)"
  by (simp add: signed_modulo_int_eq_modulo_int)

lemma uint_c_srem16: "uint (c_srem a 16) mod 16 = uint a mod 16"
  by (simp add: c_srem_def uint_mod16_of_int smod16_mod16 sint_mod16)

text \<open>The padding is the distance from the cursor to the next address that is 8 modulo
  16, whatever the sign of the cursor.\<close>

lemma uint_padding_of: "uint (padding_of a) = (8 - uint a) mod 16"
proof -
  have "uint (padding_of a) = uint (24 - c_srem a 16) mod 16"
    by (simp add: padding_of_def header_size_def DBL_WORD_SIZE_def uint_mod)
  also have "\<dots> = (24 - uint (c_srem a 16)) mod 16"
    by (simp add: uint_mod16_diff)
  also have "\<dots> = (24 - uint (c_srem a 16) mod 16) mod 16"
    by (simp add: mod_diff_right_eq)
  also have "\<dots> = (24 - uint a mod 16) mod 16"
    by (simp add: uint_c_srem16)
  also have "\<dots> = (24 - uint a) mod 16"
    by (simp add: mod_diff_right_eq)
  also have "\<dots> = (8 - uint a + 16) mod 16"
    by simp
  also have "\<dots> = (8 - uint a) mod 16"
    by (simp only: mod_add_self2)
  finally show ?thesis .
qed

lemma padding_of_less: "uint (padding_of a) < 16"
  by (simp add: uint_padding_of)

lemma padded_mod16: "uint (a + padding_of a) mod 16 = 8"
  by (simp add: uint_mod16_add uint_padding_of mod_add_right_eq)

lemma block_ptr_aligned: "uint (a + padding_of a + header_size) mod 16 = 0"
proof -
  have "uint (a + padding_of a + 8) mod 16 = (uint (a + padding_of a) + 8) mod 16"
    using uint_mod16_add [of "a + padding_of a" 8] by simp
  also have "\<dots> = (uint (a + padding_of a) mod 16 + 8) mod 16"
    by (simp add: mod_add_left_eq)
  finally show ?thesis by (simp add: padded_mod16 header_size_def)
qed

section \<open>The paths of \<open>init\<close> and \<open>malloc\<close>\<close>

lemma init_returns:
  "start_addr s \<noteq> 0 \<or> heap \<noteq> MAP_FAILED \<Longrightarrow> \<exists>s1. init heap s = Inr s1"
  by (auto simp: init_def)

lemma init_memory: "init heap s = Inr s1 \<Longrightarrow> memory s1 = memory s"
  by (auto simp: init_def split: if_splits)

lemma init_started: "start_addr s \<noteq> 0 \<Longrightarrow> init heap s = Inr s"
  by (simp add: init_def)

lemma malloc_unfold:
  "init heap s = Inr s1 \<Longrightarrow>
   malloc heap sz s =
     (if sz = 0 \<or> end_addr s1 <s free_addr s1 + padding_of (free_addr s1) + (sz + header_size)
      then Inr (NULL, s1\<lparr>free_addr := free_addr s1 + padding_of (free_addr s1)\<rparr>)
      else Inr (free_addr s1 + padding_of (free_addr s1) + header_size,
                s1\<lparr>free_addr := free_addr s1 + padding_of (free_addr s1) + (sz + header_size),
                   memory := store_size (memory s1) (free_addr s1 + padding_of (free_addr s1)) sz\<rparr>))"
  by (simp add: malloc_def Let_def)

lemma malloc_fatal: "init heap s = Inl e \<Longrightarrow> malloc heap sz s = Inl e"
  by (simp add: malloc_def)

lemma malloc_example:
  "malloc 0x7f0000000000 24 initial_state = Inr (0x7f0000000010, example_state)"
  by (simp add: malloc_def init_def initial_state_def example_state_def padding_of_def
      c_srem_def MAP_FAILED_def HEAP_SIZE_def header_size_def DBL_WORD_SIZE_def NULL_def
      Let_def word_sless_alt)

section \<open>Alignment of the returned pointer\<close>

text \<open>
  C3. Whenever \<open>malloc\<close> returns a pointer other than \<open>NULL\<close>, the address is a multiple of
  \<open>DBL_WORD_SIZE\<close> (16). This holds for every request size and from every state of the
  globals, aligned start or not: the padding is computed from the cursor alone.
\<close>

theorem malloc_aligned:
  assumes "malloc heap sz s = Inr (p, s')" and "p \<noteq> NULL"
  shows "uint p mod uint DBL_WORD_SIZE = 0"
proof (cases "init heap s")
  case (Inl e)
  with assms show ?thesis by (simp add: malloc_fatal)
next
  case (Inr s1)
  from assms have "p = free_addr s1 + padding_of (free_addr s1) + header_size"
    by (auto simp: malloc_unfold [OF Inr] split: if_splits)
  then show ?thesis
    by (simp add: block_ptr_aligned DBL_WORD_SIZE_def)
qed

theorem malloc_aligned_witness:
  "malloc 0x7f0000000000 24 initial_state = Inr (0x7f0000000010, example_state)
   \<and> (0x7f0000000010 :: addr) \<noteq> NULL
   \<and> uint (0x7f0000000010 :: addr) mod uint DBL_WORD_SIZE = 0"
proof -
  have n: "(0x7f0000000010 :: addr) \<noteq> NULL" by (simp add: NULL_def)
  from malloc_example n malloc_aligned [OF malloc_example n] show ?thesis by simp
qed

section \<open>Resizing to a size that fits\<close>

text \<open>
  C5. For a pointer \<open>ptr\<close> other than \<open>NULL\<close> whose header stores \<open>old\<close>, and a new size
  with \<open>0 < sz \<le> old\<close>, \<open>realloc\<close> returns \<open>ptr\<close> itself and leaves the globals and the
  whole memory as they were; the header still stores \<open>old\<close> after the call.
\<close>

theorem realloc_shrink_identity:
  assumes "ptr \<noteq> NULL" and "sz \<noteq> 0" and "load_size (memory s) (ptr - header_size) = old"
    and "sz \<le> old"
  shows "\<exists>s'. realloc heap ptr sz s = Inr (ptr, s') \<and> s' = s \<and>
           load_size (memory s') (ptr - header_size) = old"
  using assms by (simp add: realloc_def Let_def)

theorem realloc_shrink_identity_witness:
  "(0x7f0000000010 :: addr) \<noteq> NULL \<and> (10 :: addr) \<noteq> 0 \<and>
   load_size (memory example_state) (0x7f0000000010 - header_size) = 24 \<and> (10 :: addr) \<le> 24 \<and>
   (\<exists>s'. realloc 0x7f0000000000 0x7f0000000010 10 example_state = Inr (0x7f0000000010, s') \<and>
      s' = example_state \<and> load_size (memory s') (0x7f0000000010 - header_size) = 24)"
proof -
  have a: "(0x7f0000000010 :: addr) \<noteq> NULL" by (simp add: NULL_def)
  have b: "(10 :: addr) \<noteq> 0" by simp
  have c: "load_size (memory example_state) (0x7f0000000010 - header_size) = 24"
    by (simp add: example_state_def header_size_def load_store_size)
  have d: "(10 :: addr) \<le> 24" by simp
  from a b c d realloc_shrink_identity [OF a b c d, of "0x7f0000000000"] show ?thesis
    by blast
qed

section \<open>Requests of size zero\<close>

text \<open>
  C9. When \<open>init\<close> returns (the region exists already, or \<open>mmap\<close> does not fail),
  \<open>malloc(0)\<close> returns \<open>NULL\<close>; the memory is as before, so no header is written; \<open>start\<close>
  and \<open>end\<close> are those \<open>init\<close> left, and the cursor is the one \<open>init\<close> left plus the
  alignment padding, which is less than 16. For \<open>ptr\<close> other than \<open>NULL\<close>,
  \<open>realloc(ptr, 0)\<close> returns \<open>NULL\<close> with the state that \<open>free(ptr)\<close> leaves.
\<close>

theorem zero_size_null:
  assumes "start_addr s \<noteq> 0 \<or> heap \<noteq> MAP_FAILED"
  shows "\<exists>s1 s'. init heap s = Inr s1 \<and> malloc heap 0 s = Inr (NULL, s') \<and>
           memory s' = memory s \<and> start_addr s' = start_addr s1 \<and> end_addr s' = end_addr s1 \<and>
           free_addr s' = free_addr s1 + padding_of (free_addr s1) \<and>
           uint (padding_of (free_addr s1)) < 16 \<and>
           (ptr \<noteq> NULL \<longrightarrow> realloc heap ptr 0 s = Inr (NULL, free ptr s))"
proof -
  from init_returns [OF assms] obtain s1 where s1: "init heap s = Inr s1" ..
  then show ?thesis
    by (simp add: malloc_unfold [OF s1] init_memory [OF s1] padding_of_less realloc_def)
qed

theorem zero_size_null_witness:
  "malloc 0x7f0000000000 0 example_state = Inr (NULL, example_state\<lparr>free_addr := 0x7f0000000028\<rparr>)
   \<and> realloc 0x7f0000000000 0x7f0000000010 0 example_state = Inr (NULL, example_state)"
proof -
  have a: "start_addr example_state \<noteq> 0 \<or> (0x7f0000000000 :: addr) \<noteq> MAP_FAILED"
    by (simp add: example_state_def)
  have i: "init 0x7f0000000000 example_state = Inr example_state"
    by (simp add: init_def example_state_def)
  have p: "padding_of (free_addr example_state) = 0"
    by (simp add: example_state_def padding_of_def c_srem_def header_size_def DBL_WORD_SIZE_def)
  have f: "free_addr example_state = 0x7f0000000028"
    by (simp add: example_state_def)
  have n: "(0x7f0000000010 :: addr) \<noteq> NULL" by (simp add: NULL_def)
  from zero_size_null [OF a, of "0x7f0000000010"] i p f n show ?thesis
    by (auto simp: free_def)
qed

section \<open>Deallocation\<close>

text \<open>
  C10. \<open>free\<close> does nothing: for every argument, \<open>NULL\<close> or not, returned by \<open>malloc\<close> or
  not, freed before or not, the state after the call is the state before it, that is the
  three globals and every byte of the memory. The argument is not examined.
\<close>

theorem free_noop: "free ptr s = s"
  by (simp add: free_def)

section \<open>Which calls initialize the region\<close>

lemma init_returned:
  assumes "heap \<noteq> 0" and "init heap s = Inr s1"
  shows "start_addr s1 \<noteq> 0"
  using assms by (auto simp: init_def split: if_splits)

lemma malloc_returned:
  assumes "heap \<noteq> 0" and "malloc heap sz s = Inr (p, s')"
  shows "initialized s'"
proof (cases "init heap s")
  case (Inl e)
  with assms(2) show ?thesis by (simp add: malloc_fatal)
next
  case (Inr s1)
  from assms(2) have "start_addr s' = start_addr s1"
    by (auto simp: malloc_unfold [OF Inr] split: if_splits)
  with init_returned [OF assms(1) Inr] show ?thesis
    by (simp add: initialized_def)
qed

lemma calloc_returned:
  assumes "heap \<noteq> 0" and "calloc heap nmemb sz s = Inr (p, s')"
  shows "initialized s'"
proof (cases "malloc heap (nmemb * sz) s")
  case (Inl e)
  with assms(2) show ?thesis by (simp add: calloc_def)
next
  case (Inr r)
  obtain q s1 where r: "r = (q, s1)" by (cases r)
  from malloc_returned [OF assms(1)] Inr r have "initialized s1" by simp
  with assms(2) Inr r show ?thesis
    by (auto simp: calloc_def initialized_def split: if_splits)
qed

lemma realloc_returned:
  assumes "heap \<noteq> 0" and "realloc heap ptr sz s = Inr (p, s')"
    and "reaches_init s (Realloc ptr sz)"
  shows "initialized s'"
proof (cases "malloc heap sz s")
  case (Inl e)
  with assms(2,3) show ?thesis by (auto simp: realloc_def Let_def split: if_splits)
next
  case (Inr r)
  obtain q s1 where r: "r = (q, s1)" by (cases r)
  from malloc_returned [OF assms(1)] Inr r have "initialized s1" by simp
  with assms(2,3) Inr r show ?thesis
    by (auto simp: realloc_def free_def Let_def initialized_def split: if_splits)
qed

lemma realloc_no_init:
  assumes "\<not> reaches_init s (Realloc ptr sz)"
  shows "realloc heap ptr sz s = Inr (if sz = 0 then NULL else ptr, s)"
  using assms by (auto simp: realloc_def free_def Let_def)

text \<open>
  C2, as the code has it. \<open>malloc\<close>, \<open>calloc\<close>, \<open>realloc\<close> of \<open>NULL\<close> and \<open>realloc\<close> to a
  size larger than the stored one reach \<open>init\<close>: whenever such a call returns, and the
  address \<open>mmap\<close> gives is not 0, \<open>start\<close> is not 0 afterwards, first call or not. \<open>free\<close>,
  \<open>realloc(ptr, 0)\<close> and \<open>realloc\<close> to a size that fits never reach \<open>init\<close>: when they
  return, the globals and the memory are exactly as they were, so an uninitialized region
  stays uninitialized. Nothing is said of a call that does not return.
\<close>

theorem init_on_allocating_paths:
  assumes "heap \<noteq> 0" and "run_call heap c s = Inr s'"
  shows "(reaches_init s c \<longrightarrow> initialized s') \<and> (\<not> reaches_init s c \<longrightarrow> s' = s)"
proof (cases c)
  case (Malloc sz)
  with assms(2) obtain p where "malloc heap sz s = Inr (p, s')"
    by (cases "malloc heap sz s") auto
  from malloc_returned [OF assms(1) this] Malloc show ?thesis by simp
next
  case (Free ptr)
  with assms(2) show ?thesis by (simp add: free_def)
next
  case (Calloc nmemb sz)
  with assms(2) obtain p where "calloc heap nmemb sz s = Inr (p, s')"
    by (cases "calloc heap nmemb sz s") auto
  from calloc_returned [OF assms(1) this] Calloc show ?thesis by simp
next
  case (Realloc ptr sz)
  with assms(2) obtain p where r: "realloc heap ptr sz s = Inr (p, s')"
    by (cases "realloc heap ptr sz s") auto
  show ?thesis
  proof (cases "reaches_init s (Realloc ptr sz)")
    case True
    from realloc_returned [OF assms(1) r True] True Realloc show ?thesis by simp
  next
    case False
    from realloc_no_init [OF False, of heap] r False Realloc show ?thesis by auto
  qed
qed

theorem init_on_allocating_paths_witness:
  "(0x7f0000000000 :: addr) \<noteq> 0 \<and>
   run_call 0x7f0000000000 (Malloc 24) initial_state = Inr example_state \<and>
   reaches_init initial_state (Malloc 24) \<and> initialized example_state \<and>
   run_call 0x7f0000000000 (Free 0x7f0000000010) initial_state = Inr initial_state \<and>
   \<not> reaches_init initial_state (Free 0x7f0000000010)"
proof -
  have a: "(0x7f0000000000 :: addr) \<noteq> 0" by simp
  have b: "run_call 0x7f0000000000 (Malloc 24) initial_state = Inr example_state"
    by (simp add: malloc_example)
  have c: "run_call 0x7f0000000000 (Free 0x7f0000000010) initial_state = Inr initial_state"
    by (simp add: free_def)
  from init_on_allocating_paths [OF a b] init_on_allocating_paths [OF a c] a b c
  show ?thesis by simp
qed

text \<open>The claim as stated fails for \<open>free\<close> as the first call of a process: \<open>start\<close> is
  still 0 when it returns.\<close>

theorem free_first_counterexample:
  "map_sum id initialized (run_call 0x7f0000000000 (Free 0) initial_state) = Inr False"
  by (simp add: free_def initialized_def initial_state_def)

section \<open>Zeroing allocation\<close>

text \<open>The product of the two \<open>size_t\<close> values is the mathematical product modulo
  \<open>2^64\<close>; \<open>calloc\<close> hands it to \<open>malloc\<close>, passes a fatal error and \<open>NULL\<close> on, and fills a
  block other than \<open>NULL\<close> with that many zero bytes.\<close>

lemma calloc_product: "unat (nmemb * sz :: addr) = (unat nmemb * unat sz) mod 2 ^ 64"
  by (simp add: unat_word_ariths)

lemma calloc_cases:
  "case malloc heap (nmemb * sz) s of
      Inl e \<Rightarrow> calloc heap nmemb sz s = Inl e
    | Inr (p, s1) \<Rightarrow>
        calloc heap nmemb sz s =
          Inr (p, if p = NULL then s1
                  else s1\<lparr>memory := memset (memory s1) p 0 (nmemb * sz)\<rparr>)"
  by (simp add: calloc_def split: sum.split prod.split)

section \<open>Requests that overflow the size arithmetic\<close>

text \<open>
  C6, at a failing input. In a process that has not used the allocator, whose \<open>mmap\<close>
  returns \<open>0x7f0000000000\<close>, \<open>malloc((size_t)-8)\<close> asks for \<open>2^64 - 8\<close> bytes: cursor after
  padding plus header size plus size is far beyond \<open>end\<close>. But \<open>size + sizeof(header_s)\<close>
  wraps to 0, the test \<open>new_free_addr > end_addr\<close> is false, and \<open>malloc\<close> writes a header
  and returns the block \<open>0x7f0000000010\<close> instead of \<open>NULL\<close>.
\<close>

theorem malloc_overflow_not_null:
  "malloc 0x7f0000000000 (- 8) initial_state =
     Inr (0x7f0000000010,
          initial_state\<lparr>start_addr := 0x7f0000000000, end_addr := 0x7f0080000000,
            free_addr := 0x7f0000000008,
            memory := store_size (memory initial_state) 0x7f0000000008 (- 8)\<rparr>)"
  by (simp add: malloc_def init_def initial_state_def padding_of_def
      c_srem_def MAP_FAILED_def HEAP_SIZE_def header_size_def DBL_WORD_SIZE_def NULL_def
      Let_def word_sless_alt)

text \<open>
  C7, at a failing input. After the call above the cursor has not moved past the header,
  so the next call, \<open>malloc(1)\<close>, puts its header at the same place and returns the same
  address \<open>0x7f0000000010\<close> again: two blocks, both other than \<open>NULL\<close>, that overlap.
\<close>

theorem malloc_overflow_same_block:
  "map_sum id fst (malloc_seq 0x7f0000000000 [- 8, 1] initial_state) =
     Inr [0x7f0000000010, 0x7f0000000010]"
  by (simp add: malloc_def init_def initial_state_def padding_of_def
      c_srem_def MAP_FAILED_def HEAP_SIZE_def header_size_def DBL_WORD_SIZE_def NULL_def
      Let_def word_sless_alt)


text \<open>The two calls that lead to \<open>wrapped_state\<close>, and the header of the first block
  there.\<close>

lemma malloc_seq_wrapped:
  "malloc_seq 0x7f0000000000 [16, - 40] initial_state =
     Inr ([0x7f0000000010, 0x7f0000000030], wrapped_state)"
  by (simp add: malloc_def init_def initial_state_def wrapped_state_def padding_of_def
      c_srem_def MAP_FAILED_def HEAP_SIZE_def header_size_def DBL_WORD_SIZE_def NULL_def
      Let_def word_sless_alt)

lemma wrapped_header:
  "load_size (memory wrapped_state) (0x7f0000000010 - header_size) = 16"
  by (simp add: wrapped_state_def header_size_def load_size_def store_size_def size_byte_def)

text \<open>
  C4, at a failing input. After \<open>malloc(16)\<close>, which returns \<open>0x7f0000000010\<close>, and
  \<open>malloc((size_t)-40)\<close>, the header of the first block still stores 16 but the cursor is
  at that header. \<open>realloc(0x7f0000000010, 24)\<close> asks for more than 16, so it calls
  \<open>malloc(24)\<close>, which puts the new header over the old one and returns
  \<open>0x7f0000000010\<close>: \<open>realloc\<close> returns the pointer it was given, not a different address.
\<close>

theorem realloc_after_overflow_same_pointer:
  "malloc_seq 0x7f0000000000 [16, - 40] initial_state =
     Inr ([0x7f0000000010, 0x7f0000000030], wrapped_state) \<and>
   load_size (memory wrapped_state) (0x7f0000000010 - header_size) = 16 \<and>
   map_sum id fst (realloc 0x7f0000000000 0x7f0000000010 24 wrapped_state) =
     Inr 0x7f0000000010"
proof -
  have "malloc 0x7f0000000000 24 wrapped_state =
      Inr (0x7f0000000010,
           wrapped_state\<lparr>free_addr := 0x7f0000000028,
             memory := store_size (memory wrapped_state) 0x7f0000000008 24\<rparr>)"
    by (simp add: malloc_def init_def wrapped_state_def padding_of_def
        c_srem_def MAP_FAILED_def HEAP_SIZE_def header_size_def DBL_WORD_SIZE_def NULL_def
        Let_def word_sless_alt)
  with wrapped_header have "map_sum id fst (realloc 0x7f0000000000 0x7f0000000010 24 wrapped_state) =
     Inr 0x7f0000000010"
    by (simp add: realloc_def NULL_def free_def)
  with malloc_seq_wrapped wrapped_header show ?thesis by simp
qed

section \<open>Arithmetic in a well formed region\<close>

lemma uint_add_small:
  "uint x + uint y < 2 ^ 64 \<Longrightarrow> uint (x + y :: addr) = uint x + uint y"
  by (simp add: uint_word_ariths mod_pos_pos_trivial)

lemma sint_small: "uint (x :: addr) < 2 ^ 63 \<Longrightarrow> sint x = uint x"
proof -
  assume "uint x < 2 ^ 63"
  moreover have "- (2 ^ 63) \<le> uint x"
  proof -
    have "- (2 ^ 63) \<le> (0::int)" by simp
    also have "0 \<le> uint x" by simp
    finally show ?thesis .
  qed
  ultimately have "signed_take_bit 63 (uint x) = uint x"
    by (rule signed_take_bit_int_eq_self [rotated])
  then show ?thesis by (simp add: sint_uint)
qed

lemma uint_padded:
  "uint a < 2 ^ 63 \<Longrightarrow> uint (a + padding_of a) = uint a + (8 - uint a) mod 16"
proof -
  assume "uint a < 2 ^ 63"
  moreover have "(8 - uint a) mod 16 < 16" by simp
  ultimately have "uint a + uint (padding_of a) < 2 ^ 64"
    by (simp add: uint_padding_of)
  then show ?thesis
    by (simp add: uint_add_small uint_padding_of)
qed

text \<open>The next address that is 8 modulo 16 is not after any such address above.\<close>

lemma next_slot_le:
  fixes c e :: int
  assumes "c \<le> e" and "e mod 16 = 8"
  shows "c + (8 - c) mod 16 \<le> e"
proof -
  have "(c + (8 - c) mod 16) mod 16 = 8"
    by (simp add: mod_add_right_eq)
  with assms(2) have "(e - (c + (8 - c) mod 16)) mod 16 = 0"
    by (metis cancel_comm_monoid_add_class.diff_cancel mod_0 mod_diff_eq)
  then obtain k where k: "e - (c + (8 - c) mod 16) = 16 * k"
    by (auto simp: mod_eq_0_iff_dvd)
  have "(8 - c) mod 16 < 16" by simp
  with assms(1) k have "- 16 < 16 * k" by linarith
  then have "0 \<le> k" by linarith
  with k show ?thesis by linarith
qed

lemma mmap_ok_bounds:
  assumes "mmap_ok a"
  shows "uint (a + HEAP_SIZE) = uint a + 2 ^ 31" and "uint (a + HEAP_SIZE) mod 16 = 0"
    and "a \<noteq> 0" and "a \<noteq> MAP_FAILED"
proof -
  from assms have b: "0 < uint a" "uint a < 2 ^ 47" "uint a mod 16 = 0"
    by (simp_all add: mmap_ok_def)
  have h: "uint HEAP_SIZE = 2 ^ 31" by (simp add: HEAP_SIZE_def)
  with b show e: "uint (a + HEAP_SIZE) = uint a + 2 ^ 31"
    by (simp add: uint_add_small)
  have "(uint a + 2 ^ 31) mod 16 = (uint a mod 16 + 2 ^ 31 mod 16) mod 16"
    by (simp only: mod_add_eq)
  with b e show "uint (a + HEAP_SIZE) mod 16 = 0" by simp
  from b show "a \<noteq> 0" by auto
  from b show "a \<noteq> MAP_FAILED"
    by (auto simp: MAP_FAILED_def unsigned_minus_1_eq_mask mask_eq_exp_minus_1)
qed


lemma region_ok_bounds:
  assumes "region_ok s"
  shows "start_addr s \<noteq> 0" and "uint (end_addr s) = uint (start_addr s) + 2 ^ 31"
    and "uint (end_addr s) mod 16 = 0" and "uint (end_addr s) < 2 ^ 48"
    and "uint (start_addr s) \<le> uint (free_addr s)"
    and "uint (free_addr s) \<le> uint (end_addr s) + 8"
proof -
  from assms have m: "mmap_ok (start_addr s)" and e: "end_addr s = start_addr s + HEAP_SIZE"
    by (simp_all add: region_ok_def)
  from mmap_ok_bounds [OF m] e show "start_addr s \<noteq> 0"
    and "uint (end_addr s) = uint (start_addr s) + 2 ^ 31" and "uint (end_addr s) mod 16 = 0"
    by simp_all
  moreover from m have "uint (start_addr s) < 2 ^ 47" by (simp add: mmap_ok_def)
  ultimately show "uint (end_addr s) < 2 ^ 48" by simp
  from assms show "uint (start_addr s) \<le> uint (free_addr s)"
    and "uint (free_addr s) \<le> uint (end_addr s) + 8"
    unfolding region_ok_def by blast+
qed

lemma region_ok_padded:
  assumes "region_ok s"
  shows "uint (free_addr s + padding_of (free_addr s)) \<le> uint (end_addr s) + 8"
    and "uint (free_addr s) \<le> uint (free_addr s + padding_of (free_addr s))"
proof -
  note b = region_ok_bounds [OF assms]
  from b have c: "uint (free_addr s) < 2 ^ 63" by simp
  have e: "(uint (end_addr s) + 8) mod 16 = 8"
    using b(3) by (simp add: mod_add_left_eq [symmetric])
  from next_slot_le [OF b(6) e] show "uint (free_addr s + padding_of (free_addr s)) \<le> uint (end_addr s) + 8"
    by (simp add: uint_padded [OF c])
  have "0 \<le> (8 - uint (free_addr s)) mod 16" by simp
  then show "uint (free_addr s) \<le> uint (free_addr s + padding_of (free_addr s))"
    by (simp add: uint_padded [OF c])
qed

lemma malloc_region_ok:
  assumes r: "region_ok s" and sz: "uint sz < 2 ^ 62"
  shows "\<exists>p s'. malloc heap sz s = Inr (p, s') \<and> region_ok s' \<and>
           uint (free_addr s) \<le> uint (free_addr s')"
proof -
  note b = region_ok_bounds [OF r]
  note p = region_ok_padded [OF r]
  let ?hp = "free_addr s + padding_of (free_addr s)"
  let ?new = "?hp + (sz + header_size)"
  have i: "init heap s = Inr s" using b(1) by (rule init_started)
  show ?thesis
  proof (cases "sz = 0 \<or> end_addr s <s ?new")
    case True
    then have "malloc heap sz s = Inr (NULL, s\<lparr>free_addr := ?hp\<rparr>)"
      by (simp add: malloc_unfold [OF i])
    moreover from r p b have "region_ok (s\<lparr>free_addr := ?hp\<rparr>)"
      by (simp add: region_ok_def)
    ultimately show ?thesis using p(2) by simp
  next
    case False
    then have m: "malloc heap sz s =
        Inr (?hp + header_size, s\<lparr>free_addr := ?new, memory := store_size (memory s) ?hp sz\<rparr>)"
      by (simp add: malloc_unfold [OF i])
    from sz have t: "uint (sz + header_size) = uint sz + 8"
      by (simp add: uint_add_small header_size_def)
    from sz b p t have n: "uint ?new = uint ?hp + uint sz + 8"
      by (simp add: uint_add_small)
    from sz b p n have "uint ?new < 2 ^ 63" by simp
    then have sn: "sint ?new = uint ?new" by (rule sint_small)
    from b have "sint (end_addr s) = uint (end_addr s)" by (simp add: sint_small)
    with False sn have le: "uint ?new \<le> uint (end_addr s)"
      by (simp add: word_sless_alt)
    from n have ge: "uint ?hp \<le> uint ?new" by simp
    from r p b le ge have "region_ok (s\<lparr>free_addr := ?new, memory := store_size (memory s) ?hp sz\<rparr>)"
      by (simp add: region_ok_def)
    with m p(2) ge show ?thesis by simp
  qed
qed

lemma region_ok_sint:
  assumes "region_ok s"
  shows "sint (free_addr s) = uint (free_addr s)" and "sint (start_addr s) = uint (start_addr s)"
    and "sint (end_addr s) = uint (end_addr s)"
proof -
  note b = region_ok_bounds [OF assms]
  from b show "sint (free_addr s) = uint (free_addr s)" by (simp add: sint_small)
  from b show "sint (start_addr s) = uint (start_addr s)" by (simp add: sint_small)
  from b show "sint (end_addr s) = uint (end_addr s)" by (simp add: sint_small)
qed

lemma region_ok_memory [simp]: "region_ok (s\<lparr>memory := m\<rparr>) = region_ok s"
  by (simp add: region_ok_def)

lemma fresh_init:
  assumes "mmap_ok heap" and "fresh s"
  shows "\<exists>s1. init heap s = Inr s1 \<and> region_ok s1 \<and> free_addr s1 = heap"
  using assms mmap_ok_bounds(4) [OF assms(1)] mmap_ok_bounds(1) [OF assms(1)]
  by (simp add: init_def fresh_def region_ok_def)

lemma malloc_after_init:
  assumes "init heap s = Inr s1" and "start_addr s1 \<noteq> 0"
  shows "malloc heap sz s = malloc heap sz s1"
  by (simp add: malloc_unfold [OF assms(1)] malloc_unfold [OF init_started [OF assms(2)]])

lemma malloc_keeps_invariant:
  assumes h: "mmap_ok heap" and s: "fresh s \<or> region_ok s" and sz: "uint sz < 2 ^ 62"
  shows "\<exists>p s'. malloc heap sz s = Inr (p, s') \<and> region_ok s' \<and>
           sint (free_addr s) \<le> sint (free_addr s')"
proof (cases "region_ok s")
  case True
  from malloc_region_ok [OF True sz, of heap] obtain p s'
    where m: "malloc heap sz s = Inr (p, s')" and r: "region_ok s'"
      and le: "uint (free_addr s) \<le> uint (free_addr s')" by blast
  from le have "sint (free_addr s) \<le> sint (free_addr s')"
    by (simp add: region_ok_sint [OF True] region_ok_sint [OF r])
  with m r show ?thesis by blast
next
  case False
  with s have f: "fresh s" by simp
  from fresh_init [OF h f] obtain s1
    where i: "init heap s = Inr s1" and r1: "region_ok s1" by blast
  from malloc_region_ok [OF r1 sz, of heap] obtain p s'
    where m: "malloc heap sz s1 = Inr (p, s')" and r: "region_ok s'" by blast
  from region_ok_bounds(1) [OF r1] have "malloc heap sz s = malloc heap sz s1"
    by (rule malloc_after_init [OF i])
  moreover from f have "sint (free_addr s) = 0" by (simp add: fresh_def)
  moreover have "0 \<le> sint (free_addr s')"
    by (simp add: region_ok_sint [OF r])
  ultimately show ?thesis using m r by simp
qed

lemma invariant_cursor:
  assumes "fresh s \<or> region_ok s"
  shows "sint (start_addr s) \<le> sint (free_addr s) \<and> sint (free_addr s) \<le> sint (end_addr s) + 8"
proof (cases "region_ok s")
  case True
  from region_ok_bounds [OF True] show ?thesis
    by (simp add: region_ok_sint [OF True])
next
  case False
  with assms show ?thesis by (simp add: fresh_def)
qed

lemma run_call_keeps_invariant:
  assumes h: "mmap_ok heap" and s: "fresh s \<or> region_ok s"
    and sz: "uint (requested c) < 2 ^ 62"
  shows "\<exists>s'. run_call heap c s = Inr s' \<and> (fresh s' \<or> region_ok s') \<and>
           sint (free_addr s) \<le> sint (free_addr s')"
proof (cases c)
  case (Malloc n)
  with malloc_keeps_invariant [OF h s, of n] sz show ?thesis by auto
next
  case (Free ptr)
  with s show ?thesis by (simp add: free_def)
next
  case (Calloc nmemb n)
  with sz have "uint (nmemb * n) < 2 ^ 62" by simp
  from malloc_keeps_invariant [OF h s this] obtain p s1
    where "malloc heap (nmemb * n) s = Inr (p, s1)" and "region_ok s1"
      and "sint (free_addr s) \<le> sint (free_addr s1)" by blast
  with Calloc show ?thesis by (simp add: calloc_def)
next
  case (Realloc ptr n)
  with sz have n: "uint n < 2 ^ 62" by simp
  from malloc_keeps_invariant [OF h s n] obtain p s1
    where m: "malloc heap n s = Inr (p, s1)" and r: "region_ok s1"
      and le: "sint (free_addr s) \<le> sint (free_addr s1)" by blast
  show ?thesis
  proof (cases "reaches_init s (Realloc ptr n)")
    case True
    with m r le Realloc show ?thesis
      by (auto simp: realloc_def free_def Let_def)
  next
    case False
    with s Realloc show ?thesis
      by (auto simp: realloc_def free_def Let_def)
  qed
qed

text \<open>The same along a whole sequence of calls from the start of the process.\<close>

lemma run_calls_keep_invariant:
  assumes "mmap_ok heap" and "fresh s \<or> region_ok s"
    and "\<forall>c \<in> set cs. uint (requested c) < 2 ^ 62"
  shows "\<exists>s'. run_calls heap cs s = Inr s' \<and> (fresh s' \<or> region_ok s') \<and>
           sint (free_addr s) \<le> sint (free_addr s')"
  using assms(2,3)
proof (induction cs arbitrary: s)
  case Nil
  then show ?case by simp
next
  case (Cons c cs)
  from Cons.prems have "uint (requested c) < 2 ^ 62" by simp
  from run_call_keeps_invariant [OF assms(1) Cons.prems(1) this] obtain s1
    where c: "run_call heap c s = Inr s1" and i: "fresh s1 \<or> region_ok s1"
      and le: "sint (free_addr s) \<le> sint (free_addr s1)" by blast
  from Cons.prems have "\<forall>c \<in> set cs. uint (requested c) < 2 ^ 62" by simp
  from Cons.IH [OF i this] obtain s'
    where "run_calls heap cs s1 = Inr s'" and "fresh s' \<or> region_ok s'"
      and "sint (free_addr s1) \<le> sint (free_addr s')" by blast
  with c le show ?case by auto
qed

section \<open>The cursor and the region\<close>

text \<open>
  C1, as the code has it. Take a state whose three globals are 0 (no call yet) or whose
  region is well formed: \<open>start\<close> a multiple of 16 in \<open>(0, 2^47)\<close>, \<open>end = start + 2 GiB\<close>,
  and \<open>start \<le> cursor \<le> end + 8\<close>. Let \<open>mmap\<close> return such an address if it is called,
  and let the size handed to \<open>malloc\<close> by the call (for \<open>calloc\<close> the product modulo
  \<open>2^64\<close>) be below \<open>2^62\<close>. Then every entry point returns, the state after the call is
  again of that kind, the cursor after the call is not below the cursor before it, and
  \<open>start \<le> cursor \<le> end + 8\<close>. The bound is \<open>end + 8\<close> and not \<open>end\<close>: the padding is added
  before the test against \<open>end\<close> and stays when the request fails.
\<close>

theorem cursor_invariant_with_padding:
  assumes h: "mmap_ok heap" and s: "fresh s \<or> region_ok s"
    and sz: "uint (requested c) < 2 ^ 62"
  shows "\<exists>s'. run_call heap c s = Inr s' \<and> (fresh s' \<or> region_ok s') \<and>
           sint (free_addr s) \<le> sint (free_addr s') \<and>
           sint (start_addr s') \<le> sint (free_addr s') \<and>
           sint (free_addr s') \<le> sint (end_addr s') + 8"
proof -
  from run_call_keeps_invariant [OF h s sz] obtain s'
    where "run_call heap c s = Inr s'" and i: "fresh s' \<or> region_ok s'"
      and "sint (free_addr s) \<le> sint (free_addr s')" by blast
  with invariant_cursor [OF i] show ?thesis by blast
qed

theorem cursor_invariant_with_padding_witness:
  "mmap_ok 0x7f0000000000 \<and> (fresh initial_state \<or> region_ok initial_state) \<and>
   uint (requested (Malloc 24)) < 2 ^ 62 \<and>
   run_call 0x7f0000000000 (Malloc 24) initial_state = Inr example_state \<and>
   sint (free_addr initial_state) \<le> sint (free_addr example_state) \<and>
   sint (start_addr example_state) \<le> sint (free_addr example_state) \<and>
   sint (free_addr example_state) \<le> sint (end_addr example_state) + 8"
proof -
  have a: "mmap_ok 0x7f0000000000" by (simp add: mmap_ok_def)
  have b: "fresh initial_state \<or> region_ok initial_state"
    by (simp add: fresh_def initial_state_def)
  have c: "uint (requested (Malloc 24)) < 2 ^ 62" by simp
  from cursor_invariant_with_padding [OF a b c] a b c malloc_example
  show ?thesis by simp
qed

text \<open>The claim as stated fails: \<open>malloc(2 GiB - 16)\<close> as the first call fills the region
  exactly, so the cursor is \<open>end\<close>; the padding of the next call, here \<open>malloc(0)\<close>, moves
  the cursor to \<open>end + 8\<close>, outside \<open>[start, end]\<close>.\<close>

theorem padding_past_end_counterexample:
  "map_sum id cursor_in_region
     (run_calls 0x7f0000000000 [Malloc 0x7FFFFFF0, Malloc 0] initial_state) = Inr False"
  by (simp add: malloc_def init_def initial_state_def cursor_in_region_def padding_of_def
      c_srem_def MAP_FAILED_def HEAP_SIZE_def header_size_def DBL_WORD_SIZE_def NULL_def
      Let_def word_sless_alt)

section \<open>Resizing to a larger size\<close>

lemma below_not_in_range:
  assumes "uint x < uint y" and "uint y + 8 < 2 ^ 64"
  shows "\<not> (x - y :: addr) < 8"
proof -
  let ?z = "uint x - uint y + 2 ^ 64"
  have "0 \<le> uint x" by simp
  moreover have "uint y < 2 ^ 64" using uint_lt2p [of y] by simp
  ultimately have z0: "0 \<le> ?z" by linarith
  have z1: "?z < 2 ^ 64" using assms(1) by simp
  have "uint (x - y) = (uint x - uint y) mod 2 ^ 64"
    by (simp add: uint_word_ariths)
  also have "\<dots> = ?z mod 2 ^ 64"
    by (simp only: mod_add_self2)
  also have "\<dots> = ?z"
    using z0 z1 by (rule mod_pos_pos_trivial)
  finally have "uint (x - y) = ?z" .
  moreover have "8 \<le> ?z" using assms(2) \<open>0 \<le> uint x\<close> by linarith
  ultimately have "8 \<le> uint (x - y)" by simp
  then show ?thesis by (simp add: word_less_def)
qed

lemma memcpy_dst: "i < n \<Longrightarrow> memcpy m dst src n (dst + i) = m (src + i)"
  by (simp add: memcpy_def)

lemma memcpy_other: "\<not> x - dst < n \<Longrightarrow> memcpy m dst src n x = m x"
  by (simp add: memcpy_def)

lemma uint_less_add:
  assumes "i < (old :: addr)" and "uint p + uint old \<le> c" and "c < 2 ^ 64"
  shows "uint (p + i) < c"
proof -
  from assms(1) have "uint i < uint old" by (simp add: word_less_def)
  with assms have "uint p + uint i < 2 ^ 64" by simp
  then have "uint (p + i) = uint p + uint i" by (rule uint_add_small)
  with \<open>uint i < uint old\<close> assms(2) show ?thesis by simp
qed

text \<open>
  Growth of a block that lies below the cursor. Let the region be initialized, the cursor
  a non-negative \<open>intptr_t\<close>, and \<open>ptr\<close> a block below the cursor whose header stores
  \<open>old\<close>, and let \<open>old < sz\<close>. If the result \<open>r\<close> of \<open>malloc(sz)\<close> is not \<open>NULL\<close>, \<open>realloc\<close>
  returns \<open>r\<close>, which differs from \<open>ptr\<close>; the globals are those \<open>malloc\<close> left; the first
  \<open>old\<close> bytes at \<open>r\<close> are the first \<open>old\<close> bytes that were at \<open>ptr\<close> before the call; and
  no byte outside these \<open>old\<close> bytes is changed by the copy. If the result is \<open>NULL\<close>,
  \<open>realloc\<close> returns \<open>NULL\<close> and the memory is as before the call.
\<close>

lemma realloc_grow:
  assumes st: "start_addr s \<noteq> 0" and c: "uint (free_addr s) < 2 ^ 63"
    and b: "block_below_cursor s ptr old" and g: "old < sz"
  shows "\<exists>r s1. malloc heap sz s = Inr (r, s1) \<and>
           (r \<noteq> NULL \<longrightarrow>
              (\<exists>s'. realloc heap ptr sz s = Inr (r, s') \<and> r \<noteq> ptr \<and>
                 free_addr s' = free_addr s1 \<and> start_addr s' = start_addr s1 \<and>
                 end_addr s' = end_addr s1 \<and>
                 (\<forall>i. i < old \<longrightarrow> memory s' (r + i) = memory s (ptr + i)) \<and>
                 (\<forall>x. \<not> x - r < old \<longrightarrow> memory s' x = memory s1 x))) \<and>
           (r = NULL \<longrightarrow> realloc heap ptr sz s = Inr (NULL, s1) \<and> memory s1 = memory s)"
proof -
  let ?hp = "free_addr s + padding_of (free_addr s)"
  let ?new = "?hp + (sz + header_size)"
  from b have nn: "ptr \<noteq> NULL" and old: "load_size (memory s) (ptr - header_size) = old"
    and below: "uint ptr + uint old \<le> uint (free_addr s)"
    by (simp_all add: block_below_cursor_def)
  from g have sz0: "sz \<noteq> 0" by auto
  from g old have gt: "\<not> sz \<le> load_size (memory s) (ptr - header_size)" by simp
  have i: "init heap s = Inr s" using st by (rule init_started)
  have hp: "uint ?hp = uint (free_addr s) + (8 - uint (free_addr s)) mod 16"
    using c by (rule uint_padded)
  have pad: "0 \<le> (8 - uint (free_addr s)) mod 16" "(8 - uint (free_addr s)) mod 16 < 16"
    by simp_all
  show ?thesis
  proof (cases "end_addr s <s ?new")
    case True
    with sz0 nn gt show ?thesis
      by (simp add: malloc_unfold [OF i] realloc_def)
  next
    case False
    let ?r = "?hp + header_size"
    let ?s1 = "s\<lparr>free_addr := ?new, memory := store_size (memory s) ?hp sz\<rparr>"
    let ?s' = "?s1\<lparr>memory := memcpy (memory ?s1) ?r ptr old\<rparr>"
    from False sz0 have m: "malloc heap sz s = Inr (?r, ?s1)"
      by (simp add: malloc_unfold [OF i])
    from hp pad c have r: "uint ?r = uint ?hp + 8"
      by (simp add: uint_add_small header_size_def)
    from below hp pad r uint_nonnegative [of old] have "uint ptr < uint ?r" by linarith
    then have ne: "?r \<noteq> ptr" by auto
    have "0 \<le> uint ?hp" by simp
    with r have "uint ?r \<noteq> 0" by linarith
    then have rn: "?r \<noteq> NULL" by (auto simp: NULL_def)
    from m rn nn sz0 gt old have re: "realloc heap ptr sz s = Inr (?r, ?s')"
      by (simp add: realloc_def free_def)
    have copy: "memory ?s' (?r + i) = memory s (ptr + i)" if "i < old" for i
    proof -
      from c have "uint (free_addr s) < 2 ^ 64" by simp
      from uint_less_add [OF that below this] hp pad have lt: "uint (ptr + i) < uint ?hp"
        by linarith
      from hp pad c have "uint ?hp + 8 < 2 ^ 64" by simp
      with lt have "\<not> ptr + i - ?hp < 8" by (rule below_not_in_range)
      then have "store_size (memory s) ?hp sz (ptr + i) = memory s (ptr + i)"
        by (rule store_size_other)
      with that show ?thesis by (simp add: memcpy_dst)
    qed
    have rest: "memory ?s' x = memory ?s1 x" if "\<not> x - ?r < old" for x
      using that by (simp add: memcpy_other)
    from m re ne rn copy rest show ?thesis by simp
  qed
qed

lemma realloc_grow_example:
  "start_addr example_state \<noteq> 0 \<and> uint (free_addr example_state) < 2 ^ 63 \<and>
   block_below_cursor example_state 0x7f0000000010 24 \<and> (24 :: addr) < 75 \<and>
   (\<exists>s'. realloc 0x7f0000000000 0x7f0000000010 75 example_state = Inr (0x7f0000000030, s') \<and>
      (0x7f0000000030 :: addr) \<noteq> 0x7f0000000010 \<and> free_addr s' = 0x7f000000007b \<and>
      (\<forall>i. i < 24 \<longrightarrow>
         memory s' (0x7f0000000030 + i) = memory example_state (0x7f0000000010 + i)))"
proof -
  have a: "start_addr example_state \<noteq> 0" by (simp add: example_state_def)
  have b: "uint (free_addr example_state) < 2 ^ 63" by (simp add: example_state_def)
  have c: "block_below_cursor example_state 0x7f0000000010 24"
    by (simp add: block_below_cursor_def example_state_def header_size_def NULL_def
        load_store_size)
  have d: "(24 :: addr) < 75" by simp
  have m: "malloc 0x7f0000000000 75 example_state =
      Inr (0x7f0000000030,
           example_state\<lparr>free_addr := 0x7f000000007b,
             memory := store_size (memory example_state) 0x7f0000000028 75\<rparr>)"
    by (simp add: malloc_def init_def example_state_def padding_of_def
      c_srem_def MAP_FAILED_def HEAP_SIZE_def header_size_def DBL_WORD_SIZE_def NULL_def
      Let_def word_sless_alt)
  have n: "(0x7f0000000030 :: addr) \<noteq> NULL" by (simp add: NULL_def)
  from realloc_grow [OF a b c d, of "0x7f0000000000"] m n
  obtain s' where "realloc 0x7f0000000000 0x7f0000000010 75 example_state = Inr (0x7f0000000030, s')"
    and "free_addr s' = 0x7f000000007b"
    and "\<forall>i. i < 24 \<longrightarrow>
         memory s' (0x7f0000000030 + i) = memory example_state (0x7f0000000010 + i)"
    by auto
  with a b c d show ?thesis by auto
qed

section \<open>Requests that do not overflow\<close>

text \<open>The failing inputs of C6 and C7 come from the wrap-around of the size arithmetic
  alone. For a request below \<open>2^62\<close> in a well formed region the exhaustion test and the
  separation of blocks are as the comments of \<open>malloc\<close> describe them.\<close>

text \<open>What a call of \<open>malloc\<close> does in a well formed region when the request does not
  overflow: the test against \<open>end\<close> is the test on the unbounded sum.\<close>

lemma malloc_no_overflow:
  assumes r: "region_ok s" and sz: "uint sz < 2 ^ 62"
  shows "malloc heap sz s =
     (if sz = 0 \<or> uint (end_addr s) < uint (free_addr s + padding_of (free_addr s)) + 8 + uint sz
      then Inr (NULL, s\<lparr>free_addr := free_addr s + padding_of (free_addr s)\<rparr>)
      else Inr (free_addr s + padding_of (free_addr s) + header_size,
                s\<lparr>free_addr := free_addr s + padding_of (free_addr s) + (sz + header_size),
                  memory := store_size (memory s) (free_addr s + padding_of (free_addr s)) sz\<rparr>))"
    and "uint (free_addr s + padding_of (free_addr s) + header_size) =
           uint (free_addr s + padding_of (free_addr s)) + 8"
    and "uint (free_addr s + padding_of (free_addr s) + (sz + header_size)) =
           uint (free_addr s + padding_of (free_addr s)) + 8 + uint sz"
proof -
  note b = region_ok_bounds [OF r]
  note p = region_ok_padded [OF r]
  let ?hp = "free_addr s + padding_of (free_addr s)"
  let ?new = "?hp + (sz + header_size)"
  have i: "init heap s = Inr s" using b(1) by (rule init_started)
  from sz have t: "uint (sz + header_size) = uint sz + 8"
    by (simp add: uint_add_small header_size_def)
  from sz b p t show n: "uint ?new = uint ?hp + 8 + uint sz"
    by (simp add: uint_add_small)
  from b p show "uint (?hp + header_size) = uint ?hp + 8"
    by (simp add: uint_add_small header_size_def)
  from sz b p n have "uint ?new < 2 ^ 63" by simp
  then have sn: "sint ?new = uint ?new" by (rule sint_small)
  from b have "sint (end_addr s) = uint (end_addr s)" by (simp add: sint_small)
  with sn n have "end_addr s <s ?new \<longleftrightarrow> uint (end_addr s) < uint ?hp + 8 + uint sz"
    by (simp add: word_sless_alt)
  then show "malloc heap sz s =
     (if sz = 0 \<or> uint (end_addr s) < uint ?hp + 8 + uint sz
      then Inr (NULL, s\<lparr>free_addr := ?hp\<rparr>)
      else Inr (?hp + header_size,
                s\<lparr>free_addr := ?new, memory := store_size (memory s) ?hp sz\<rparr>))"
    by (simp add: malloc_unfold [OF i])
qed

text \<open>Exhaustion without overflow: \<open>NULL\<close>, the cursor as the padding left it, the memory
  untouched.\<close>

lemma malloc_exhausted:
  assumes "region_ok s" and "uint sz < 2 ^ 62"
    and "uint (end_addr s) < uint (free_addr s + padding_of (free_addr s)) + 8 + uint sz"
  shows "malloc heap sz s = Inr (NULL, s\<lparr>free_addr := free_addr s + padding_of (free_addr s)\<rparr>)"
  using assms(3) by (simp add: malloc_no_overflow(1) [OF assms(1,2)])

text \<open>A block handed out without overflow lies between the old and the new cursor, and
  its header stores the requested size.\<close>

lemma malloc_block_bounds:
  assumes r: "region_ok s" and sz: "uint sz < 2 ^ 62"
    and m: "malloc heap sz s = Inr (p, s')" and p: "p \<noteq> NULL"
  shows "uint (free_addr s) < uint p" and "uint p + uint sz = uint (free_addr s')"
    and "block_below_cursor s' p sz"
proof -
  let ?hp = "free_addr s + padding_of (free_addr s)"
  note n = malloc_no_overflow [OF r sz]
  from m p n(1) [of heap] have pe: "p = ?hp + header_size"
    and se: "s' = s\<lparr>free_addr := ?hp + (sz + header_size),
                  memory := store_size (memory s) ?hp sz\<rparr>"
    by (auto simp: NULL_def split: if_splits)
  from region_ok_padded(2) [OF r] n(2) pe show "uint (free_addr s) < uint p" by simp
  from n(2,3) pe se show e: "uint p + uint sz = uint (free_addr s')" by simp
  from pe have "p - header_size = ?hp" by simp
  with se have "load_size (memory s') (p - header_size) = sz"
    by (simp add: load_store_size)
  with p e show "block_below_cursor s' p sz"
    by (simp add: block_below_cursor_def)
qed

text \<open>Two successive calls without overflow: the second block begins after the end of
  the first.\<close>

lemma malloc_twice_disjoint:
  assumes r: "region_ok s" and sz1: "uint sz1 < 2 ^ 62" and sz2: "uint sz2 < 2 ^ 62"
    and m1: "malloc heap sz1 s = Inr (p1, s1)" and p1: "p1 \<noteq> NULL"
    and m2: "malloc heap sz2 s1 = Inr (p2, s2)" and p2: "p2 \<noteq> NULL"
  shows "uint p1 + uint sz1 < uint p2"
proof -
  from malloc_region_ok [OF r sz1, of heap] m1 have r1: "region_ok s1" by simp
  from malloc_block_bounds(2) [OF r sz1 m1 p1] malloc_block_bounds(1) [OF r1 sz2 m2 p2]
  show ?thesis by simp
qed

text \<open>In a well formed region, for a product below \<open>2^62\<close>, the block that \<open>calloc\<close>
  fills lies between the old and the new cursor, so the fill stays inside the region.\<close>

lemma calloc_zero_fill_in_region:
  assumes r: "region_ok s" and sz: "uint (nmemb * sz) < 2 ^ 62"
  shows "\<exists>p s1. malloc heap (nmemb * sz) s = Inr (p, s1) \<and>
           (p = NULL \<longrightarrow> calloc heap nmemb sz s = Inr (NULL, s1)) \<and>
           (p \<noteq> NULL \<longrightarrow>
              (\<exists>s2. calloc heap nmemb sz s = Inr (p, s2) \<and> region_ok s2 \<and>
                 free_addr s2 = free_addr s1 \<and>
                 uint (free_addr s) < uint p \<and>
                 uint p + uint (nmemb * sz) = uint (free_addr s2) \<and>
                 uint (free_addr s2) \<le> uint (end_addr s2) \<and>
                 (\<forall>i. i < nmemb * sz \<longrightarrow> memory s2 (p + i) = 0) \<and>
                 (\<forall>x. \<not> x - p < nmemb * sz \<longrightarrow> memory s2 x = memory s1 x)))"
proof -
  from malloc_region_ok [OF r sz, of heap] obtain p s1
    where m: "malloc heap (nmemb * sz) s = Inr (p, s1)" and r1: "region_ok s1" by blast
  show ?thesis
  proof (cases "p = NULL")
    case True
    with m show ?thesis by (simp add: calloc_def)
  next
    case False
    note b = malloc_block_bounds [OF r sz m False]
    define s2 where "s2 = s1\<lparr>memory := memset (memory s1) p 0 (nmemb * sz)\<rparr>"
    from m False have c: "calloc heap nmemb sz s = Inr (p, s2)"
      by (simp add: calloc_def s2_def)
    from m False malloc_no_overflow(1) [OF r sz, of heap]
    have "\<not> uint (end_addr s) < uint (free_addr s + padding_of (free_addr s)) + 8 + uint (nmemb * sz)"
      and s1: "s1 = s\<lparr>free_addr := free_addr s + padding_of (free_addr s) + (nmemb * sz + header_size),
                  memory := store_size (memory s) (free_addr s + padding_of (free_addr s)) (nmemb * sz)\<rparr>"
      by (auto simp: NULL_def split: if_splits)
    with malloc_no_overflow(3) [OF r sz] have "uint (free_addr s1) \<le> uint (end_addr s1)"
      by simp
    then have le: "uint (free_addr s2) \<le> uint (end_addr s2)" by (simp add: s2_def)
    from r1 have r2: "region_ok s2" by (simp add: s2_def)
    have fa: "free_addr s2 = free_addr s1" by (simp add: s2_def)
    from b(2) have e: "uint p + uint (nmemb * sz) = uint (free_addr s2)" by (simp add: s2_def)
    have fill: "\<forall>i. i < nmemb * sz \<longrightarrow> memory s2 (p + i) = 0"
      by (simp add: s2_def memset_def)
    have rest: "\<forall>x. \<not> x - p < nmemb * sz \<longrightarrow> memory s2 x = memory s1 x"
      by (simp add: s2_def memset_def)
    from m c False r2 fa b(1) e le fill rest show ?thesis by blast
  qed
qed

lemma header_before_payload:
  assumes "k < (8::addr)" and "uint (old::addr) < 2 ^ 63"
  shows "\<not> k - 8 < old"
proof -
  let ?z = "uint k - 8 + 2 ^ 64"
  from assms(1) have k: "uint k < 8" by (simp add: word_less_def)
  have k0: "0 \<le> uint k" by simp
  from k0 have z0: "0 \<le> ?z" by simp
  from k have z1: "?z < 2 ^ 64" by simp
  have "uint (k - 8) = (uint k - 8) mod 2 ^ 64"
    by (simp add: uint_word_ariths)
  also have "\<dots> = ?z mod 2 ^ 64"
    by (simp only: mod_add_self2)
  also have "\<dots> = ?z"
    using z0 z1 by (rule mod_pos_pos_trivial)
  finally have "uint (k - 8) = ?z" .
  moreover have "(2::int) ^ 63 \<le> 2 ^ 64 - 8" by simp
  with assms(2) k0 have "uint old \<le> ?z" by linarith
  ultimately have "uint old \<le> uint (k - 8)" by simp
  then show ?thesis by (simp add: word_less_def)
qed

lemma region_ok_same_globals:
  assumes "free_addr s' = free_addr s" and "start_addr s' = start_addr s"
    and "end_addr s' = end_addr s"
  shows "region_ok s' = region_ok s"
  by (simp add: region_ok_def assms)

lemma load_size_cong:
  assumes "\<And>k. k < (8::addr) \<Longrightarrow> m' (a + k) = m (a + k)"
  shows "load_size m' a = load_size m a"
  using assms [of 0] assms [of 1] assms [of 2] assms [of 3] assms [of 4] assms [of 5]
    assms [of 6] assms [of 7]
  by (simp add: load_size_def)

text \<open>Growth of a block below the cursor in a well formed region, for a new size below
  \<open>2^62\<close>: the new block is a block of the new size above the old cursor, hence apart
  from the old one, and the region stays well formed.\<close>

lemma realloc_grow_in_region:
  assumes r: "region_ok s" and b: "block_below_cursor s ptr old" and g: "old < sz"
    and sz: "uint sz < 2 ^ 62"
  shows "\<exists>q s1. malloc heap sz s = Inr (q, s1) \<and>
           (q = NULL \<longrightarrow> realloc heap ptr sz s = Inr (NULL, s1) \<and> memory s1 = memory s) \<and>
           (q \<noteq> NULL \<longrightarrow>
              (\<exists>s'. realloc heap ptr sz s = Inr (q, s') \<and> region_ok s' \<and>
                 uint ptr + uint old < uint q \<and> block_below_cursor s' q sz \<and>
                 (\<forall>i. i < old \<longrightarrow> memory s' (q + i) = memory s (ptr + i)) \<and>
                 (\<forall>x. \<not> x - q < old \<longrightarrow> memory s' x = memory s1 x)))"
proof -
  note rb = region_ok_bounds [OF r]
  from rb have st: "start_addr s \<noteq> 0" and c: "uint (free_addr s) < 2 ^ 63" by simp_all
  from b have below: "uint ptr + uint old \<le> uint (free_addr s)"
    by (simp add: block_below_cursor_def)
  from realloc_grow [OF st c b g, of heap] obtain q s1
    where m: "malloc heap sz s = Inr (q, s1)"
      and ok: "q \<noteq> NULL \<Longrightarrow> \<exists>s'. realloc heap ptr sz s = Inr (q, s') \<and> q \<noteq> ptr \<and>
                 free_addr s' = free_addr s1 \<and> start_addr s' = start_addr s1 \<and>
                 end_addr s' = end_addr s1 \<and>
                 (\<forall>i. i < old \<longrightarrow> memory s' (q + i) = memory s (ptr + i)) \<and>
                 (\<forall>x. \<not> x - q < old \<longrightarrow> memory s' x = memory s1 x)"
      and null: "q = NULL \<Longrightarrow> realloc heap ptr sz s = Inr (NULL, s1) \<and> memory s1 = memory s"
    by blast
  show ?thesis
  proof (cases "q = NULL")
    case True
    with m null show ?thesis by simp
  next
    case False
    from ok [OF False] obtain s'
      where re: "realloc heap ptr sz s = Inr (q, s')"
        and fa: "free_addr s' = free_addr s1" and sa: "start_addr s' = start_addr s1"
        and ea: "end_addr s' = end_addr s1"
        and copy: "\<forall>i. i < old \<longrightarrow> memory s' (q + i) = memory s (ptr + i)"
        and rest: "\<forall>x. \<not> x - q < old \<longrightarrow> memory s' x = memory s1 x"
      by blast
    note bb = malloc_block_bounds [OF r sz m False]
    from malloc_region_ok [OF r sz, of heap] m have r1: "region_ok s1" by simp
    with region_ok_same_globals [OF fa sa ea] have r': "region_ok s'" by simp
    from below bb(1) have apart: "uint ptr + uint old < uint q" by simp
    from below c uint_nonnegative [of ptr] have o: "uint old < 2 ^ 63" by linarith
    have "memory s' (q - header_size + k) = memory s1 (q - header_size + k)" if "k < 8" for k
    proof -
      from header_before_payload [OF that o] have "\<not> (q - header_size + k) - q < old"
        by (simp add: header_size_def)
      with rest show ?thesis by blast
    qed
    then have "load_size (memory s') (q - header_size) = load_size (memory s1) (q - header_size)"
      by (rule load_size_cong)
    with bb(3) bb(2) fa False have "block_below_cursor s' q sz"
      by (simp add: block_below_cursor_def)
    with m re r' apart copy rest False show ?thesis by blast
  qed
qed

end
